theory Spec2Isabelle
  imports Complex_Main "HOL-Library.Multiset"
begin

section \<open>Values, errors and frames\<close>

text \<open>
  Dates are day numbers. A floating-point value is modelled without rounding: a finite
  value is a real number, and the three non-finite results that pandas and Python produce
  (the two infinities and NaN) are separate constructors, so that a division by zero is
  visible in the model instead of being HOL's \<open>x / 0 = 0\<close>. Signed zeros and
  overflow are not modelled.
\<close>

type_synonym data = int

datatype flt = Fin real | PInf | NInf | NaN

datatype erro =
    ValueError string
  | IndexError
  | KeyError string
  | ZeroDivisionError
  | ExcecaoRemota string

fun fneg :: "flt \<Rightarrow> flt" where
  "fneg (Fin x) = Fin (- x)"
| "fneg PInf = NInf"
| "fneg NInf = PInf"
| "fneg NaN = NaN"

fun fadd :: "flt \<Rightarrow> flt \<Rightarrow> flt" where
  "fadd NaN _ = NaN"
| "fadd _ NaN = NaN"
| "fadd (Fin x) (Fin y) = Fin (x + y)"
| "fadd (Fin x) PInf = PInf"
| "fadd (Fin x) NInf = NInf"
| "fadd PInf NInf = NaN"
| "fadd PInf _ = PInf"
| "fadd NInf PInf = NaN"
| "fadd NInf _ = NInf"

definition fsub :: "flt \<Rightarrow> flt \<Rightarrow> flt" where
  "fsub a b = fadd a (fneg b)"

definition inf_com_sinal :: "bool \<Rightarrow> flt" where
  "inf_com_sinal positivo = (if positivo then PInf else NInf)"

fun fmul :: "flt \<Rightarrow> flt \<Rightarrow> flt" where
  "fmul NaN _ = NaN"
| "fmul _ NaN = NaN"
| "fmul (Fin x) (Fin y) = Fin (x * y)"
| "fmul (Fin x) PInf = (if x = 0 then NaN else inf_com_sinal (0 < x))"
| "fmul (Fin x) NInf = (if x = 0 then NaN else inf_com_sinal (x < 0))"
| "fmul PInf (Fin y) = (if y = 0 then NaN else inf_com_sinal (0 < y))"
| "fmul NInf (Fin y) = (if y = 0 then NaN else inf_com_sinal (y < 0))"
| "fmul PInf PInf = PInf"
| "fmul PInf NInf = NInf"
| "fmul NInf PInf = NInf"
| "fmul NInf NInf = PInf"

text \<open>
  Division as numpy does it on float64 arrays: a zero divisor raises nothing, it yields
  NaN for \<open>0 / 0\<close> and an infinity otherwise.
\<close>

fun fdiv :: "flt \<Rightarrow> flt \<Rightarrow> flt" where
  "fdiv NaN _ = NaN"
| "fdiv _ NaN = NaN"
| "fdiv (Fin x) (Fin y) =
     (if y = 0 then (if x = 0 then NaN else inf_com_sinal (0 < x)) else Fin (x / y))"
| "fdiv (Fin x) PInf = Fin 0"
| "fdiv (Fin x) NInf = Fin 0"
| "fdiv PInf (Fin y) = inf_com_sinal (0 \<le> y)"
| "fdiv NInf (Fin y) = inf_com_sinal (y < 0)"
| "fdiv PInf _ = NaN"
| "fdiv NInf _ = NaN"

text \<open>
  Division of two Python \<open>float\<close> objects: a zero divisor raises
  \<open>ZeroDivisionError\<close>.
\<close>

definition py_fdiv :: "flt \<Rightarrow> flt \<Rightarrow> erro + flt" where
  "py_fdiv a b = (if b = Fin 0 then Inl ZeroDivisionError else Inr (fdiv a b))"

text \<open>The comparison \<open>a > b\<close>; any comparison with NaN is false.\<close>

fun fgt :: "flt \<Rightarrow> flt \<Rightarrow> bool" where
  "fgt NaN _ = False"
| "fgt _ NaN = False"
| "fgt (Fin x) (Fin y) = (y < x)"
| "fgt (Fin x) PInf = False"
| "fgt (Fin x) NInf = True"
| "fgt PInf PInf = False"
| "fgt PInf _ = True"
| "fgt NInf _ = False"

text \<open>
  Positional access \<open>.iloc[i]\<close> (and \<open>.index[i]\<close>): a negative position counts
  from the end, a position out of range raises \<open>IndexError\<close>.
\<close>

definition iloc :: "'a list \<Rightarrow> int \<Rightarrow> erro + 'a" where
  "iloc xs i =
     (let j = (if i < 0 then int (length xs) + i else i)
      in if 0 \<le> j \<and> j < int (length xs) then Inr (xs ! nat j) else Inl IndexError)"

text \<open>
  A pandas Series with a date index is a list of (date, value) pairs; a DataFrame is its
  index together with its named columns, in column order.
\<close>

type_synonym serie = "(data \<times> flt) list"

record quadro =
  indice :: "data list"
  colunas :: "(string \<times> flt list) list"

definition coluna :: "quadro \<Rightarrow> string \<Rightarrow> flt list option" where
  "coluna q nome = map_of (colunas q) nome"

text \<open>\<open>DataFrame.empty\<close>: one of the two axes has length zero.\<close>

definition vazio :: "quadro \<Rightarrow> bool" where
  "vazio q = (indice q = [] \<or> colunas q = [])"

section \<open>Superation detectors (comparacao\_ativos.py)\<close>

text \<open>
  \<open>pd.DataFrame({'ativo1': s1, 'ativo2': s2}).dropna()\<close>: the frame's index is the
  sorted union of the two indices, each series is reindexed on it (a date it lacks gives
  NaN), and every row with a NaN is dropped. The model is that of pandas for series whose
  dates are strictly increasing, which is the invariant of a time series here.
\<close>

type_synonym linha = "data \<times> flt \<times> flt"

definition uniao_indices :: "data list \<Rightarrow> data list \<Rightarrow> data list" where
  "uniao_indices xs ys = sort (remdups (xs @ ys))"

definition reindexar :: "serie \<Rightarrow> data \<Rightarrow> flt" where
  "reindexar s d = (case map_of s d of Some v \<Rightarrow> v | None \<Rightarrow> NaN)"

definition dropna :: "linha list \<Rightarrow> linha list" where
  "dropna ls = filter (\<lambda>l. fst (snd l) \<noteq> NaN \<and> snd (snd l) \<noteq> NaN) ls"

definition alinhar :: "serie \<Rightarrow> serie \<Rightarrow> linha list" where
  "alinhar s1 s2 =
     dropna (map (\<lambda>d. (d, reindexar s1 d, reindexar s2 d))
                 (uniao_indices (map fst s1) (map fst s2)))"

text \<open>The predicate \<open>ativo2 > ativo1\<close> at a row of the aligned frame.\<close>

definition supera :: "linha \<Rightarrow> bool" where
  "supera l = fgt (snd (snd l)) (fst (snd l))"

type_synonym janela = "data \<times> data \<times> flt \<times> flt"

record estado_janelas =
  em_superacao :: bool
  inicio_idx :: "nat option"
  janelas :: "janela list"

definition estado_janelas_inicial :: estado_janelas where
  "estado_janelas_inicial = \<lparr>em_superacao = False, inicio_idx = None, janelas = []\<rparr>"

text \<open>One iteration of the loop of \<open>encontrar_janelas_superacao\<close> at position \<open>i\<close>.\<close>

definition passo_janelas :: "linha list \<Rightarrow> estado_janelas \<Rightarrow> nat \<times> linha \<Rightarrow> erro + estado_janelas" where
  "passo_janelas al st x =
     (let i = fst x; dt = fst (snd x); valor = supera (snd x) in
      if valor \<and> \<not> em_superacao st then
        Inr (st\<lparr>em_superacao := True, inicio_idx := Some i\<rparr>)
      else if \<not> valor \<and> em_superacao st then
        (case inicio_idx st of
           None \<Rightarrow> Inr (st\<lparr>em_superacao := False, inicio_idx := None\<rparr>)
         | Some ini \<Rightarrow>
             (case iloc al (int ini) of
                Inl e \<Rightarrow> Inl e
              | Inr li \<Rightarrow>
                  (case iloc al (int i - 1) of
                     Inl e \<Rightarrow> Inl e
                   | Inr lf \<Rightarrow>
                       Inr (st\<lparr>em_superacao := False, inicio_idx := None,
                               janelas := janelas st @
                                 [(fst li, dt, fst (snd lf), snd (snd lf))]\<rparr>))))
      else Inr st)"

fun laco_janelas :: "linha list \<Rightarrow> (nat \<times> linha) list \<Rightarrow> estado_janelas \<Rightarrow> erro + estado_janelas" where
  "laco_janelas al [] st = Inr st"
| "laco_janelas al (x # xs) st =
     (case passo_janelas al st x of
        Inl e \<Rightarrow> Inl e
      | Inr st' \<Rightarrow> laco_janelas al xs st')"

text \<open>The part of \<open>encontrar_janelas_superacao\<close> after the alignment.\<close>

definition janelas_do_alinhado :: "linha list \<Rightarrow> int \<Rightarrow> erro + janela list" where
  "janelas_do_alinhado al janela_meses =
     (if al = [] then Inr []
      else
        let dias_janela = janela_meses * 21 in
        (case laco_janelas al (enumerate 0 al) estado_janelas_inicial of
           Inl e \<Rightarrow> Inl e
         | Inr st \<Rightarrow>
             (case (em_superacao st, inicio_idx st) of
                (True, Some ini) \<Rightarrow>
                  (case iloc al (int ini) of
                     Inl e \<Rightarrow> Inl e
                   | Inr li \<Rightarrow>
                       (case iloc al (- 1) of
                          Inl e \<Rightarrow> Inl e
                        | Inr lf \<Rightarrow>
                            Inr (janelas st @ [(fst li, fst lf, fst (snd lf), snd (snd lf))])))
              | _ \<Rightarrow> Inr (janelas st))))"

definition encontrar_janelas_superacao :: "serie \<Rightarrow> serie \<Rightarrow> int \<Rightarrow> erro + janela list" where
  "encontrar_janelas_superacao retornos1 retornos2 janela_meses =
     janelas_do_alinhado (alinhar retornos1 retornos2) janela_meses"

type_synonym periodo = "data \<times> data \<times> int"

record estado_periodos =
  inicio :: "data option"
  periodos :: "periodo list"

definition estado_periodos_inicial :: estado_periodos where
  "estado_periodos_inicial = \<lparr>inicio = None, periodos = []\<rparr>"

text \<open>One iteration of the loop of \<open>encontrar_periodos_superacao\<close> at position \<open>i\<close>.\<close>

definition passo_periodos :: "linha list \<Rightarrow> estado_periodos \<Rightarrow> nat \<times> linha \<Rightarrow> erro + estado_periodos" where
  "passo_periodos al st x =
     (let i = fst x; dt = fst (snd x); valor = supera (snd x) in
      case inicio st of
        None \<Rightarrow> if valor then Inr (st\<lparr>inicio := Some dt\<rparr>) else Inr st
      | Some ini \<Rightarrow>
          if \<not> valor then
            (case iloc (map fst al) (int i - 1) of
               Inl e \<Rightarrow> Inl e
             | Inr fim \<Rightarrow>
                 Inr (st\<lparr>inicio := None,
                         periodos := periodos st @ [(ini, fim, (fim - ini) + 1)]\<rparr>))
          else Inr st)"

fun laco_periodos :: "linha list \<Rightarrow> (nat \<times> linha) list \<Rightarrow> estado_periodos \<Rightarrow> erro + estado_periodos" where
  "laco_periodos al [] st = Inr st"
| "laco_periodos al (x # xs) st =
     (case passo_periodos al st x of
        Inl e \<Rightarrow> Inl e
      | Inr st' \<Rightarrow> laco_periodos al xs st')"

text \<open>The part of \<open>encontrar_periodos_superacao\<close> after the alignment.\<close>

definition periodos_do_alinhado :: "linha list \<Rightarrow> erro + periodo list" where
  "periodos_do_alinhado al =
     (case laco_periodos al (enumerate 0 al) estado_periodos_inicial of
        Inl e \<Rightarrow> Inl e
      | Inr st \<Rightarrow>
          (case inicio st of
             None \<Rightarrow> Inr (periodos st)
           | Some ini \<Rightarrow>
               (case iloc (map fst al) (- 1) of
                  Inl e \<Rightarrow> Inl e
                | Inr fim \<Rightarrow> Inr (periodos st @ [(ini, fim, (fim - ini) + 1)]))))"

definition encontrar_periodos_superacao :: "serie \<Rightarrow> serie \<Rightarrow> erro + periodo list" where
  "encontrar_periodos_superacao var_ativo1 var_ativo2 =
     periodos_do_alinhado (alinhar var_ativo1 var_ativo2)"

subsection \<open>Invariants of the two scans\<close>

text \<open>
  The date pair of an interval, the disjointness of a list of date pairs (each one ends
  strictly before every later one starts), and the invariants that the two loops keep
  after \<open>n\<close> rows of the aligned frame.
\<close>

definition extremos :: "data \<times> data \<times> 'a \<Rightarrow> data \<times> data" where
  "extremos t = (fst t, fst (snd t))"

definition disjuntos :: "(data \<times> data) list \<Rightarrow> bool" where
  "disjuntos ivs = sorted_wrt (\<lambda>p q. snd p < fst q) ivs"

definition limite :: "nat option \<Rightarrow> nat \<Rightarrow> nat" where
  "limite k n = (case k of Some i \<Rightarrow> i | None \<Rightarrow> n)"

definition dentro :: "linha list \<Rightarrow> nat \<Rightarrow> data \<times> data \<Rightarrow> bool" where
  "dentro al lm iv = (\<exists>s e. s \<le> e \<and> e < lm \<and> fst iv = fst (al ! s) \<and> snd iv = fst (al ! e))"

definition inv_janelas :: "linha list \<Rightarrow> nat \<Rightarrow> estado_janelas \<Rightarrow> bool" where
  "inv_janelas al n st =
     ((em_superacao st \<longleftrightarrow> inicio_idx st \<noteq> None) \<and>
      (em_superacao st \<longleftrightarrow> (0 < n \<and> supera (al ! (n - 1)))) \<and>
      (\<forall>k. inicio_idx st = Some k \<longrightarrow> k < n) \<and>
      disjuntos (map extremos (janelas st)) \<and>
      list_all (dentro al (limite (inicio_idx st) n)) (map extremos (janelas st)))"

definition inv_periodos :: "linha list \<Rightarrow> nat \<Rightarrow> estado_periodos \<Rightarrow> bool" where
  "inv_periodos al n st =
     ((inicio st \<noteq> None \<longleftrightarrow> (0 < n \<and> supera (al ! (n - 1)))) \<and>
      (\<exists>k. (case inicio st of None \<Rightarrow> k = n | Some d \<Rightarrow> k < n \<and> d = fst (al ! k)) \<and>
           list_all (dentro al k) (map extremos (periodos st))) \<and>
      disjuntos (map extremos (periodos st)))"

text \<open>
  A run is a maximal stretch of aligned rows, from position \<open>s\<close> to position
  \<open>e\<close>, at which \<open>B > A\<close> holds (maximal on the left; on the right the
  two kinds of interval say what follows the run). An interval of the windowed detector
  is closed when the row after the run ended it, and open when the run reaches the last
  row.
\<close>

definition corrida :: "linha list \<Rightarrow> nat \<Rightarrow> nat \<Rightarrow> bool" where
  "corrida al s e =
     (s \<le> e \<and> e < length al \<and> (\<forall>k. s \<le> k \<and> k \<le> e \<longrightarrow> supera (al ! k)) \<and>
      (s = 0 \<or> \<not> supera (al ! (s - 1))))"

definition janela_fechada :: "linha list \<Rightarrow> janela \<Rightarrow> bool" where
  "janela_fechada al j =
     (\<exists>s e. corrida al s e \<and> Suc e < length al \<and> \<not> supera (al ! Suc e) \<and>
        j = (fst (al ! s), fst (al ! Suc e), fst (snd (al ! e)), snd (snd (al ! e))))"

definition janela_aberta :: "linha list \<Rightarrow> janela \<Rightarrow> bool" where
  "janela_aberta al j =
     (\<exists>s e. corrida al s e \<and> Suc e = length al \<and>
        j = (fst (al ! s), fst (al ! e), fst (snd (al ! e)), snd (snd (al ! e))))"

definition inv_corridas :: "linha list \<Rightarrow> nat \<Rightarrow> estado_janelas \<Rightarrow> bool" where
  "inv_corridas al n st =
     ((\<forall>k. inicio_idx st = Some k \<longrightarrow>
          (\<forall>i. k \<le> i \<and> i < n \<longrightarrow> supera (al ! i)) \<and> (k = 0 \<or> \<not> supera (al ! (k - 1)))) \<and>
      list_all (janela_fechada al) (janelas st))"

section \<open>Returns (comparacao\_ativos.py)\<close>

text \<open>Sequencing of two steps of which the first may raise.\<close>

definition entao :: "erro + 'a \<Rightarrow> ('a \<Rightarrow> erro + 'b) \<Rightarrow> erro + 'b" where
  "entao r f = (case r of Inl e \<Rightarrow> Inl e | Inr x \<Rightarrow> f x)"

text \<open>
  \<open>calcular_variacao_percentual\<close>: the first close is read with \<open>.iloc[0]\<close>, which
  raises on an empty column; the arithmetic is that of a pandas Series, so that a zero
  first close raises nothing.
\<close>

definition calcular_variacao_percentual :: "quadro \<Rightarrow> erro + serie" where
  "calcular_variacao_percentual dados =
     (case coluna dados ''Close'' of
        None \<Rightarrow> Inl (ValueError ''DataFrame nao contem coluna Close'')
      | Some coluna_close \<Rightarrow>
          entao (iloc coluna_close 0) (\<lambda>preco_inicial.
            Inr (zip (indice dados)
                     (map (\<lambda>c. fmul (fdiv (fsub c preco_inicial) preco_inicial) (Fin 100))
                          coluna_close))))"

text \<open>
  \<open>range(n)\<close> for an integer \<open>n\<close>: empty when \<open>n\<close> is not positive.
\<close>

definition range_py :: "int \<Rightarrow> int list" where
  "range_py n = map int [0..<nat n]"

text \<open>
  The loop of \<open>calcular_retorno_janela\<close>. Both prices are converted to Python floats,
  so that the division raises \<open>ZeroDivisionError\<close> on a zero initial price.
\<close>

fun laco_retornos :: "data list \<Rightarrow> flt list \<Rightarrow> int \<Rightarrow> int list \<Rightarrow> serie \<Rightarrow> erro + serie" where
  "laco_retornos datas coluna_close dias_janela [] acc = Inr acc"
| "laco_retornos datas coluna_close dias_janela (i # resto) acc =
     entao (iloc coluna_close i) (\<lambda>preco_inicial.
     entao (iloc coluna_close (i + dias_janela)) (\<lambda>preco_final.
     entao (py_fdiv (fsub preco_final preco_inicial) preco_inicial) (\<lambda>q.
     entao (iloc datas (i + dias_janela)) (\<lambda>dt.
       laco_retornos datas coluna_close dias_janela resto
         (acc @ [(dt, fmul q (Fin 100))])))))"

definition calcular_retorno_janela :: "quadro \<Rightarrow> int \<Rightarrow> erro + serie" where
  "calcular_retorno_janela dados janela_meses =
     (case coluna dados ''Close'' of
        None \<Rightarrow> Inl (ValueError ''DataFrame nao contem coluna Close'')
      | Some coluna_close \<Rightarrow>
          (let dias_janela = janela_meses * 21 in
           laco_retornos (indice dados) coluna_close dias_janela
             (range_py (int (length coluna_close) - dias_janela)) []))"

text \<open>The return of one window, as the specification writes it.\<close>

definition retorno_da_janela :: "flt list \<Rightarrow> nat \<Rightarrow> nat \<Rightarrow> flt" where
  "retorno_da_janela close largura i =
     fmul (fdiv (fsub (close ! (i + largura)) (close ! i)) (close ! i)) (Fin 100)"

section \<open>Savings account (renda\_fixa\_br.py, obter\_poupanca)\<close>

text \<open>
  The computation on the merged frame, one row per date with the policy rate (SELIC) and
  the secondary rate (TR), both finite after \<open>fillna(0)\<close>: they are real numbers here.
\<close>

definition valor_inicial :: real where
  "valor_inicial = 100000"

definition rendimento_mensal :: "real \<Rightarrow> real" where
  "rendimento_mensal x = (if x > 8.5 then 0.5 else x * 0.7 / 12)"

definition rendimento_total :: "real \<times> real \<Rightarrow> real" where
  "rendimento_total l = rendimento_mensal (fst l) + snd l / 12"

definition taxa_diaria :: "real \<times> real \<Rightarrow> real" where
  "taxa_diaria l = rendimento_total l / 30"

fun cumprod_de :: "real \<Rightarrow> real list \<Rightarrow> real list" where
  "cumprod_de p [] = []"
| "cumprod_de p (x # xs) = (p * x) # cumprod_de (p * x) xs"

definition cumprod :: "real list \<Rightarrow> real list" where
  "cumprod xs = cumprod_de 1 xs"

definition fator_acumulado :: "(real \<times> real) list \<Rightarrow> real list" where
  "fator_acumulado df = cumprod (map (\<lambda>l. 1 + taxa_diaria l / 100) df)"

definition valor_investimento :: "(real \<times> real) list \<Rightarrow> real list" where
  "valor_investimento df = map (\<lambda>f. valor_inicial * f) (fator_acumulado df)"

section \<open>Currency conversion (comparacao\_ativos.py, converter\_usd\_para\_brl)\<close>


definition colunas_preco :: "string list" where
  "colunas_preco = [''Open'', ''High'', ''Low'', ''Close'', ''Adj Close'']"

definition escalar_fixo :: "quadro \<Rightarrow> flt \<Rightarrow> quadro" where
  "escalar_fixo q taxa_fixa =
     q\<lparr>colunas := map (\<lambda>c. if fst c \<in> set colunas_preco
                             then (fst c, map (\<lambda>v. fmul v taxa_fixa) (snd c)) else c)
                      (colunas q)\<rparr>"

definition escalar_por_data :: "quadro \<Rightarrow> flt list \<Rightarrow> quadro" where
  "escalar_por_data q taxas =
     q\<lparr>colunas := map (\<lambda>c. if fst c \<in> set colunas_preco
                             then (fst c, map2 fmul (snd c) taxas) else c)
                      (colunas q)\<rparr>"

fun ffill_de :: "flt \<Rightarrow> flt list \<Rightarrow> flt list" where
  "ffill_de ultimo [] = []"
| "ffill_de ultimo (x # xs) =
     (if x = NaN then ultimo # ffill_de ultimo xs else x # ffill_de x xs)"

definition ffill :: "flt list \<Rightarrow> flt list" where
  "ffill xs = ffill_de NaN xs"

definition bfill :: "flt list \<Rightarrow> flt list" where
  "bfill xs = rev (ffill (rev xs))"




section \<open>Market data fetch (comparacao\_ativos.py, obter\_dados\_ativo)\<close>


fun comeca_com :: "string \<Rightarrow> string \<Rightarrow> bool" where
  "comeca_com s [] = True"
| "comeca_com [] (p # ps) = False"
| "comeca_com (c # cs) (p # ps) = (c = p \<and> comeca_com cs ps)"

text \<open>\<open>sub in s\<close> on strings.\<close>

fun contem :: "string \<Rightarrow> string \<Rightarrow> bool" where
  "contem [] sub = (sub = [])"
| "contem (c # cs) sub = (comeca_com (c # cs) sub \<or> contem cs sub)"







section \<open>Paginated rate series (renda\_fixa\_br.py, \_buscar\_serie\_bcb)\<close>

text \<open>
  What one request for a date range gives: the request fails (also on the retry without
  certificate verification), the reply is an error object, or it is a list of
  observations (empty for a reply that is not JSON).
\<close>

datatype resposta_bcb = FalhaBCB | ErroAPI | Registros "(data \<times> flt) list"

definition janela_anos :: int where
  "janela_anos = 5"

text \<open>The \<open>while data_atual < data_fim\<close> loop, one request per slice.\<close>

function laco_fatias ::
  "(data \<Rightarrow> data \<Rightarrow> resposta_bcb) \<Rightarrow> data \<Rightarrow> data \<Rightarrow> (data \<times> flt) list \<Rightarrow> (data \<times> flt) list" where
  "laco_fatias fonte data_atual data_fim todos_dados =
     (if data_atual < data_fim then
        (let fim_fatia = min (data_atual + 365 * janela_anos) data_fim;
             todos_dados' = (case fonte data_atual fim_fatia of
                               Registros dados \<Rightarrow> todos_dados @ dados
                             | _ \<Rightarrow> todos_dados)
         in laco_fatias fonte (fim_fatia + 1) data_fim todos_dados')
      else todos_dados)"
  by pat_completeness auto
termination
  by (relation "measure (\<lambda>(fonte, data_atual, data_fim, todos). nat (data_fim - data_atual))")
     (auto simp: janela_anos_def)

text \<open>
  \<open>df[~df.index.duplicated(keep='first')]\<close>: a row is kept when its date has not
  occurred before it.
\<close>

fun sem_duplicadas :: "data list \<Rightarrow> (data \<times> flt) list \<Rightarrow> (data \<times> flt) list" where
  "sem_duplicadas vistas [] = []"
| "sem_duplicadas vistas (l # ls) =
     (if fst l \<in> set vistas then sem_duplicadas vistas ls
      else l # sem_duplicadas (fst l # vistas) ls)"

text \<open>
  The consolidation of the accumulated observations: rows without a value are dropped,
  the rows are sorted by date (the sort is taken to be stable) and repeated dates removed.
  No observation at all gives the empty frame.
\<close>

definition consolidar :: "(data \<times> flt) list \<Rightarrow> serie" where
  "consolidar todos_dados =
     (if todos_dados = [] then []
      else sem_duplicadas [] (sort_key fst (filter (\<lambda>l. snd l \<noteq> NaN) todos_dados)))"

definition buscar_serie_bcb :: "(data \<Rightarrow> data \<Rightarrow> resposta_bcb) \<Rightarrow> data \<Rightarrow> data \<Rightarrow> serie" where
  "buscar_serie_bcb fonte data_inicio data_fim =
     consolidar (laco_fatias fonte data_inicio data_fim [])"

text \<open>
  An upstream source that holds a fixed list of observations: it answers a request with
  the observations of the closed date range, and rejects a range wider than its limit.
  The same range asked in one request of a source without limit is
  \<open>busca_sem_fatias\<close>.
\<close>

definition no_intervalo :: "data \<Rightarrow> data \<Rightarrow> (data \<times> flt) list \<Rightarrow> (data \<times> flt) list" where
  "no_intervalo a b base = filter (\<lambda>l. a \<le> fst l \<and> fst l \<le> b) base"

definition fonte_limitada :: "int \<Rightarrow> (data \<times> flt) list \<Rightarrow> data \<Rightarrow> data \<Rightarrow> resposta_bcb" where
  "fonte_limitada limite_dias base a b =
     (if b - a > limite_dias then ErroAPI else Registros (no_intervalo a b base))"

definition busca_sem_fatias :: "(data \<times> flt) list \<Rightarrow> data \<Rightarrow> data \<Rightarrow> serie" where
  "busca_sem_fatias base data_inicio data_fim =
     consolidar (no_intervalo data_inicio data_fim base)"

text \<open>
  The last day that the slices of a range reach: the day before the end when the length
  of the range is a multiple of 1826 days, the end itself otherwise. Two lists of
  observations are equivalent when they hold the same observations and, for every date,
  the observations of that date in the same order: a stable sort by date cannot tell
  them apart.
\<close>

definition cobertura :: "data \<Rightarrow> data \<Rightarrow> data" where
  "cobertura data_inicio data_fim =
     (if (data_fim - data_inicio) mod 1826 = 0 then data_fim - 1 else data_fim)"

definition equivalentes :: "(data \<times> flt) list \<Rightarrow> (data \<times> flt) list \<Rightarrow> bool" where
  "equivalentes xs ys =
     (mset xs = mset ys \<and> (\<forall>k. filter (\<lambda>l. fst l = k) xs = filter (\<lambda>l. fst l = k) ys))"

section \<open>Properties of the superation detectors\<close>

lemma datas_nth_less:
  "sorted_wrt (<) (map fst (al :: linha list)) \<Longrightarrow> i < j \<Longrightarrow> j < length al \<Longrightarrow> fst (al ! i) < fst (al ! j)"
  by (simp add: sorted_wrt_iff_nth_less)

lemma datas_nth_le:
  "sorted_wrt (<) (map fst (al :: linha list)) \<Longrightarrow> i \<le> j \<Longrightarrow> j < length al \<Longrightarrow> fst (al ! i) \<le> fst (al ! j)"
  using datas_nth_less [of al i j] by (cases "i = j") auto

lemma dentro_mono: "dentro al lm iv \<Longrightarrow> lm \<le> lm' \<Longrightarrow> dentro al lm' iv"
  unfolding dentro_def by (meson less_le_trans)

lemma list_all_dentro_mono:
  "list_all (dentro al lm) ivs \<Longrightarrow> lm \<le> lm' \<Longrightarrow> list_all (dentro al lm') ivs"
  by (induction ivs) (auto intro: dentro_mono)

lemma disjuntos_snoc:
  "disjuntos (ivs @ [iv]) \<longleftrightarrow> disjuntos ivs \<and> (\<forall>p \<in> set ivs. snd p < fst iv)"
  unfolding disjuntos_def by (auto simp: sorted_wrt_append)

lemma dentro_antes:
  assumes "sorted_wrt (<) (map fst al)" "dentro al k iv" "k < length al"
  shows "snd iv < fst (al ! k)"
proof -
  from assms(2) obtain s e where "e < k" "snd iv = fst (al ! e)"
    unfolding dentro_def by blast
  with assms(1,3) show ?thesis using datas_nth_less [of al e k] by simp
qed

lemma iloc_nat: "i < length xs \<Longrightarrow> iloc xs (int i) = Inr (xs ! i)"
  by (simp add: iloc_def)

lemma iloc_pred: "0 < i \<Longrightarrow> i \<le> length xs \<Longrightarrow> iloc xs (int i - 1) = Inr (xs ! (i - 1))"
  by (auto simp: iloc_def Let_def nat_diff_distrib')

lemma iloc_ultimo: "xs \<noteq> [] \<Longrightarrow> iloc xs (- 1) = Inr (last xs)"
  by (auto simp: iloc_def Let_def last_conv_nth nat_diff_distrib' )

lemma passo_janelas_inv:
  assumes cres: "sorted_wrt (<) (map fst al)" and n: "n < length al"
    and inv: "inv_janelas al n st"
  shows "\<exists>st'. passo_janelas al st (n, al ! n) = Inr st' \<and> inv_janelas al (Suc n) st'"
proof (cases "supera (al ! n)")
  case True
  show ?thesis
  proof (cases "em_superacao st")
    case True
    with \<open>supera (al ! n)\<close> inv show ?thesis
      by (auto simp: passo_janelas_def inv_janelas_def limite_def Let_def)
  next
    case False
    with \<open>supera (al ! n)\<close> inv show ?thesis
      by (auto simp: passo_janelas_def inv_janelas_def limite_def Let_def)
  qed
next
  case nsup: False
  show ?thesis
  proof (cases "em_superacao st")
    case False
    with nsup inv show ?thesis
      by (auto simp: passo_janelas_def inv_janelas_def limite_def Let_def
          intro: list_all_dentro_mono)
  next
    case True
    with inv obtain k where k: "inicio_idx st = Some k" "k < n"
      unfolding inv_janelas_def by auto
    from inv have disj: "disjuntos (map extremos (janelas st))"
      and den: "list_all (dentro al k) (map extremos (janelas st))"
      unfolding inv_janelas_def using k by (auto simp: limite_def)
    let ?j = "(fst (al ! k), fst (al ! n), fst (snd (al ! (n - 1))), snd (snd (al ! (n - 1))))"
    let ?st = "st\<lparr>em_superacao := False, inicio_idx := None, janelas := janelas st @ [?j]\<rparr>"
    have passo: "passo_janelas al st (n, al ! n) = Inr ?st"
      using nsup True k n by (simp add: passo_janelas_def Let_def iloc_nat iloc_pred)
    have antes: "\<forall>p \<in> set (map extremos (janelas st)). snd p < fst (extremos ?j)"
      using den cres k n dentro_antes [where al = al and k = k]
      by (auto simp: list_all_iff extremos_def)
    have novo: "dentro al (Suc n) (extremos ?j)"
      unfolding dentro_def extremos_def using k by (intro exI [of _ k] exI [of _ n]) simp
    have "inv_janelas al (Suc n) ?st"
      unfolding inv_janelas_def using nsup disj antes novo den k
      by (auto simp: limite_def disjuntos_snoc intro: list_all_dentro_mono)
    with passo show ?thesis by blast
  qed
qed

lemma drop_enumerate_passo:
  "n < length al \<Longrightarrow> drop n (enumerate 0 al) = (n, al ! n) # drop (Suc n) (enumerate 0 al)"
  by (simp add: Cons_nth_drop_Suc [symmetric] nth_enumerate_eq)

lemma laco_janelas_inv:
  assumes cres: "sorted_wrt (<) (map fst al)"
  shows "n \<le> length al \<Longrightarrow> inv_janelas al n st \<Longrightarrow>
    \<exists>st'. laco_janelas al (drop n (enumerate 0 al)) st = Inr st' \<and> inv_janelas al (length al) st'"
proof (induction "length al - n" arbitrary: n st)
  case 0
  then show ?case by simp
next
  case (Suc m)
  then have n: "n < length al" by simp
  from passo_janelas_inv [OF cres n Suc.prems(2)] obtain st1
    where st1: "passo_janelas al st (n, al ! n) = Inr st1" "inv_janelas al (Suc n) st1"
    by blast
  from Suc.hyps(2) n have "m = length al - Suc n" by simp
  from Suc.hyps(1) [OF this _ st1(2)] n obtain st'
    where "laco_janelas al (drop (Suc n) (enumerate 0 al)) st1 = Inr st'"
      "inv_janelas al (length al) st'"
    by auto
  with st1(1) show ?case by (simp add: drop_enumerate_passo [OF n])
qed

lemma inv_janelas_inicial: "inv_janelas al 0 estado_janelas_inicial"
  by (simp add: inv_janelas_def estado_janelas_inicial_def disjuntos_def)

lemma dentro_ordem:
  assumes "sorted_wrt (<) (map fst al)" "dentro al (length al) iv"
  shows "fst iv \<le> snd iv"
proof -
  from assms(2) obtain s e where "s \<le> e" "e < length al"
    "fst iv = fst (al ! s)" "snd iv = fst (al ! e)"
    unfolding dentro_def by blast
  with assms(1) show ?thesis using datas_nth_le [of al s e] by simp
qed

lemma disjuntos_inicios_ordenados:
  assumes "sorted_wrt (<) (map fst al)" "disjuntos ivs" "list_all (dentro al (length al)) ivs"
  shows "sorted (map fst ivs)"
proof -
  have "sorted_wrt (\<lambda>p q. fst p \<le> fst q) ivs"
  proof (rule sorted_wrt_mono_rel [OF _ assms(2) [unfolded disjuntos_def]])
    fix p q assume "p \<in> set ivs" "q \<in> set ivs" "snd p < fst q"
    moreover from \<open>p \<in> set ivs\<close> assms(1,3) have "fst p \<le> snd p"
      by (auto simp: list_all_iff intro: dentro_ordem)
    ultimately show "fst p \<le> fst q" by simp
  qed
  then show ?thesis by (simp add: sorted_map)
qed

lemma janelas_do_alinhado_props:
  assumes cres: "sorted_wrt (<) (map fst al)"
  shows "\<exists>js. janelas_do_alinhado al m = Inr js \<and>
     disjuntos (map extremos js) \<and>
     list_all (dentro al (length al)) (map extremos js) \<and>
     (al = [] \<longrightarrow> js = []) \<and>
     (al \<noteq> [] \<and> supera (last al) \<longrightarrow> js \<noteq> [] \<and> snd (extremos (last js)) = fst (last al))"
proof (cases "al = []")
  case True
  then show ?thesis by (simp add: janelas_do_alinhado_def disjuntos_def)
next
  case False
  from laco_janelas_inv [OF cres, of 0, OF _ inv_janelas_inicial] obtain st
    where st: "laco_janelas al (enumerate 0 al) estado_janelas_inicial = Inr st"
      and inv: "inv_janelas al (length al) st"
    by auto
  show ?thesis
  proof (cases "em_superacao st")
    case nem: False
    with inv have "inicio_idx st = None" "\<not> supera (last al)"
      using False by (auto simp: inv_janelas_def last_conv_nth)
    with nem st inv False show ?thesis
      by (auto simp: janelas_do_alinhado_def inv_janelas_def limite_def Let_def)
  next
    case True
    with inv obtain k where k: "inicio_idx st = Some k" "k < length al"
      unfolding inv_janelas_def by auto
    from inv k have disj: "disjuntos (map extremos (janelas st))"
      and den: "list_all (dentro al k) (map extremos (janelas st))"
      unfolding inv_janelas_def by (auto simp: limite_def)
    let ?j = "(fst (al ! k), fst (last al), fst (snd (last al)), snd (snd (last al)))"
    have res: "janelas_do_alinhado al m = Inr (janelas st @ [?j])"
      using False st True k by (simp add: janelas_do_alinhado_def Let_def iloc_nat iloc_ultimo)
    have antes: "\<forall>p \<in> set (map extremos (janelas st)). snd p < fst (extremos ?j)"
      using den cres k dentro_antes [where al = al and k = k]
      by (auto simp: list_all_iff extremos_def)
    have novo: "dentro al (length al) (extremos ?j)"
      unfolding dentro_def extremos_def using k False
      by (intro exI [of _ k] exI [of _ "length al - 1"]) (auto simp: last_conv_nth)
    from den k have "list_all (dentro al (length al)) (map extremos (janelas st))"
      by (auto intro: list_all_dentro_mono)
    with res disj antes novo False show ?thesis
      by (auto simp: disjuntos_snoc extremos_def)
  qed
qed

lemma passo_periodos_inv:
  assumes cres: "sorted_wrt (<) (map fst al)" and n: "n < length al"
    and inv: "inv_periodos al n st"
  shows "\<exists>st'. passo_periodos al st (n, al ! n) = Inr st' \<and> inv_periodos al (Suc n) st'"
proof (cases "inicio st")
  case None
  with inv have den: "list_all (dentro al n) (map extremos (periodos st))"
    and disj: "disjuntos (map extremos (periodos st))"
    unfolding inv_periodos_def by auto
  show ?thesis
  proof (cases "supera (al ! n)")
    case True
    have "inv_periodos al (Suc n) (st\<lparr>inicio := Some (fst (al ! n))\<rparr>)"
      unfolding inv_periodos_def using True den disj by (auto intro: exI [of _ n])
    with None True show ?thesis by (simp add: passo_periodos_def Let_def)
  next
    case False
    have "inv_periodos al (Suc n) st"
      unfolding inv_periodos_def using False None den disj
      by (auto intro: list_all_dentro_mono)
    with None False show ?thesis by (simp add: passo_periodos_def Let_def)
  qed
next
  case (Some d)
  with inv obtain k where k: "k < n" "d = fst (al ! k)"
    and den: "list_all (dentro al k) (map extremos (periodos st))"
    and disj: "disjuntos (map extremos (periodos st))"
    and sup: "supera (al ! (n - 1))"
    unfolding inv_periodos_def by auto
  show ?thesis
  proof (cases "supera (al ! n)")
    case True
    have "inv_periodos al (Suc n) st"
      unfolding inv_periodos_def using True Some k den disj by (auto intro: exI [of _ k])
    with Some True show ?thesis by (simp add: passo_periodos_def Let_def)
  next
    case False
    let ?fim = "fst (al ! (n - 1))"
    let ?p = "(d, ?fim, ?fim - d + 1)"
    let ?st = "st\<lparr>inicio := None, periodos := periodos st @ [?p]\<rparr>"
    have "iloc (map fst al) (int n - 1) = Inr ?fim"
      using k n by (simp add: iloc_pred)
    then have passo: "passo_periodos al st (n, al ! n) = Inr ?st"
      using False Some by (simp add: passo_periodos_def Let_def)
    have antes: "\<forall>q \<in> set (map extremos (periodos st)). snd q < fst (extremos ?p)"
      using den cres k n dentro_antes [where al = al and k = k]
      by (auto simp: list_all_iff extremos_def)
    have novo: "dentro al (Suc n) (extremos ?p)"
      unfolding dentro_def extremos_def using k
      by (intro exI [of _ k] exI [of _ "n - 1"]) auto
    from den k have "list_all (dentro al (Suc n)) (map extremos (periodos st))"
      by (auto intro: list_all_dentro_mono)
    with False disj antes novo have "inv_periodos al (Suc n) ?st"
      unfolding inv_periodos_def by (auto simp: disjuntos_snoc)
    with passo show ?thesis by blast
  qed
qed

lemma laco_periodos_inv:
  assumes cres: "sorted_wrt (<) (map fst al)"
  shows "n \<le> length al \<Longrightarrow> inv_periodos al n st \<Longrightarrow>
    \<exists>st'. laco_periodos al (drop n (enumerate 0 al)) st = Inr st' \<and> inv_periodos al (length al) st'"
proof (induction "length al - n" arbitrary: n st)
  case 0
  then show ?case by simp
next
  case (Suc m)
  then have n: "n < length al" by simp
  from passo_periodos_inv [OF cres n Suc.prems(2)] obtain st1
    where st1: "passo_periodos al st (n, al ! n) = Inr st1" "inv_periodos al (Suc n) st1"
    by blast
  from Suc.hyps(2) n have "m = length al - Suc n" by simp
  from Suc.hyps(1) [OF this _ st1(2)] n obtain st'
    where "laco_periodos al (drop (Suc n) (enumerate 0 al)) st1 = Inr st'"
      "inv_periodos al (length al) st'"
    by auto
  with st1(1) show ?case by (simp add: drop_enumerate_passo [OF n])
qed

lemma inv_periodos_inicial: "inv_periodos al 0 estado_periodos_inicial"
  by (simp add: inv_periodos_def estado_periodos_inicial_def disjuntos_def)

lemma periodos_do_alinhado_props:
  assumes cres: "sorted_wrt (<) (map fst al)"
  shows "\<exists>ps. periodos_do_alinhado al = Inr ps \<and>
     disjuntos (map extremos ps) \<and>
     list_all (dentro al (length al)) (map extremos ps) \<and>
     (al = [] \<longrightarrow> ps = []) \<and>
     (al \<noteq> [] \<and> supera (last al) \<longrightarrow> ps \<noteq> [] \<and> snd (extremos (last ps)) = fst (last al))"
proof -
  from laco_periodos_inv [OF cres, of 0, OF _ inv_periodos_inicial] obtain st
    where st: "laco_periodos al (enumerate 0 al) estado_periodos_inicial = Inr st"
      and inv: "inv_periodos al (length al) st"
    by auto
  show ?thesis
  proof (cases "inicio st")
    case None
    with inv have "al \<noteq> [] \<Longrightarrow> \<not> supera (last al)"
      by (auto simp: inv_periodos_def last_conv_nth)
    moreover have "periodos st = []" if "al = []"
    proof -
      from that None inv have "\<forall>p \<in> set (periodos st). False"
        by (auto simp: inv_periodos_def dentro_def list_all_iff)
      then show ?thesis by (cases "periodos st") auto
    qed
    ultimately show ?thesis using None st inv
      by (auto simp: periodos_do_alinhado_def inv_periodos_def)
  next
    case (Some d)
    with inv obtain k where k: "k < length al" "d = fst (al ! k)"
      and den: "list_all (dentro al k) (map extremos (periodos st))"
      and disj: "disjuntos (map extremos (periodos st))"
      unfolding inv_periodos_def by auto
    then have ne: "al \<noteq> []" by auto
    let ?fim = "fst (last al)"
    let ?p = "(d, ?fim, ?fim - d + 1)"
    have "iloc (map fst al) (- 1) = Inr ?fim"
      using ne by (simp add: iloc_ultimo last_map)
    then have res: "periodos_do_alinhado al = Inr (periodos st @ [?p])"
      using st Some by (simp add: periodos_do_alinhado_def)
    have antes: "\<forall>q \<in> set (map extremos (periodos st)). snd q < fst (extremos ?p)"
      using den cres k dentro_antes [where al = al and k = k]
      by (auto simp: list_all_iff extremos_def)
    have novo: "dentro al (length al) (extremos ?p)"
      unfolding dentro_def extremos_def using k ne
      by (intro exI [of _ k] exI [of _ "length al - 1"]) (auto simp: last_conv_nth)
    from den k have "list_all (dentro al (length al)) (map extremos (periodos st))"
      by (auto intro: list_all_dentro_mono)
    with res disj antes novo ne show ?thesis
      by (auto simp: disjuntos_snoc extremos_def)
  qed
qed

lemma alinhar_datas_crescentes: "sorted_wrt (<) (map fst (alinhar s1 s2))"
proof -
  let ?ds = "uniao_indices (map fst s1) (map fst s2)"
  have "sorted_wrt (<) ?ds"
    unfolding uniao_indices_def by (simp add: strict_sorted_iff)
  then have "sorted_wrt (\<lambda>a b. fst a < fst b) (map (\<lambda>d. (d, reindexar s1 d, reindexar s2 d)) ?ds)"
    by (simp add: sorted_wrt_map)
  then have "sorted_wrt (\<lambda>a b. fst a < fst b) (alinhar s1 s2)"
    unfolding alinhar_def dropna_def by (rule sorted_wrt_filter)
  then show ?thesis by (simp add: sorted_wrt_map)
qed

lemma passo_janelas_corridas:
  assumes n: "n < length al"
    and inv: "inv_janelas al n st" and cor: "inv_corridas al n st"
    and passo: "passo_janelas al st (n, al ! n) = Inr st'"
  shows "inv_corridas al (Suc n) st'"
proof (cases "supera (al ! n)")
  case True
  show ?thesis
  proof (cases "em_superacao st")
    case True
    with \<open>supera (al ! n)\<close> passo have "st' = st"
      by (simp add: passo_janelas_def Let_def)
    with cor \<open>supera (al ! n)\<close> show ?thesis
      by (auto simp: inv_corridas_def less_Suc_eq)
  next
    case False
    with \<open>supera (al ! n)\<close> passo
    have st': "st' = st\<lparr>em_superacao := True, inicio_idx := Some n\<rparr>"
      by (simp add: passo_janelas_def Let_def)
    from False inv have "n = 0 \<or> \<not> supera (al ! (n - 1))"
      by (auto simp: inv_janelas_def)
    with cor \<open>supera (al ! n)\<close> show ?thesis
      unfolding st' by (auto simp: inv_corridas_def less_Suc_eq)
  qed
next
  case nsup: False
  show ?thesis
  proof (cases "em_superacao st")
    case False
    with nsup passo have "st' = st"
      by (simp add: passo_janelas_def Let_def)
    moreover from False inv have "inicio_idx st = None"
      by (auto simp: inv_janelas_def)
    ultimately show ?thesis using cor by (auto simp: inv_corridas_def)
  next
    case True
    with inv obtain k where k: "inicio_idx st = Some k" "k < n"
      unfolding inv_janelas_def by auto
    let ?j = "(fst (al ! k), fst (al ! n), fst (snd (al ! (n - 1))), snd (snd (al ! (n - 1))))"
    from nsup True k n passo
    have st': "st' = st\<lparr>em_superacao := False, inicio_idx := None, janelas := janelas st @ [?j]\<rparr>"
      by (simp add: passo_janelas_def Let_def iloc_nat iloc_pred)
    from cor k have run: "\<forall>i. k \<le> i \<and> i < n \<longrightarrow> supera (al ! i)"
      and ini: "k = 0 \<or> \<not> supera (al ! (k - 1))"
      by (auto simp: inv_corridas_def)
    have "corrida al k (n - 1)"
      unfolding corrida_def using k n run ini by auto
    then have "janela_fechada al ?j"
      unfolding janela_fechada_def using k n nsup
      by (intro exI [of _ k] exI [of _ "n - 1"]) auto
    with cor show ?thesis
      unfolding st' by (auto simp: inv_corridas_def)
  qed
qed

lemma laco_janelas_corridas:
  assumes cres: "sorted_wrt (<) (map fst al)"
  shows "n \<le> length al \<Longrightarrow> inv_janelas al n st \<Longrightarrow> inv_corridas al n st \<Longrightarrow>
    \<exists>st'. laco_janelas al (drop n (enumerate 0 al)) st = Inr st' \<and>
          inv_janelas al (length al) st' \<and> inv_corridas al (length al) st'"
proof (induction "length al - n" arbitrary: n st)
  case 0
  then show ?case by simp
next
  case (Suc m)
  then have n: "n < length al" by simp
  from passo_janelas_inv [OF cres n Suc.prems(2)] obtain st1
    where st1: "passo_janelas al st (n, al ! n) = Inr st1" "inv_janelas al (Suc n) st1"
    by blast
  from passo_janelas_corridas [OF n Suc.prems(2,3) st1(1)]
  have cor1: "inv_corridas al (Suc n) st1" .
  from Suc.hyps(2) n have "m = length al - Suc n" by simp
  from Suc.hyps(1) [OF this _ st1(2) cor1] n obtain st'
    where "laco_janelas al (drop (Suc n) (enumerate 0 al)) st1 = Inr st'"
      "inv_janelas al (length al) st'" "inv_corridas al (length al) st'"
    by auto
  with st1(1) show ?case by (simp add: drop_enumerate_passo [OF n])
qed

lemma inv_corridas_inicial: "inv_corridas al 0 estado_janelas_inicial"
  by (simp add: inv_corridas_def estado_janelas_inicial_def)

lemma janelas_do_alinhado_corridas:
  assumes cres: "sorted_wrt (<) (map fst al)"
  shows "\<exists>js. janelas_do_alinhado al m = Inr js \<and>
     list_all (janela_fechada al) (butlast js) \<and>
     (js \<noteq> [] \<longrightarrow> janela_fechada al (last js) \<or> janela_aberta al (last js))"
proof (cases "al = []")
  case True
  then show ?thesis by (simp add: janelas_do_alinhado_def)
next
  case False
  from laco_janelas_corridas [OF cres, of 0, OF _ inv_janelas_inicial inv_corridas_inicial]
  obtain st
    where st: "laco_janelas al (enumerate 0 al) estado_janelas_inicial = Inr st"
      and inv: "inv_janelas al (length al) st" and cor: "inv_corridas al (length al) st"
    by auto
  from cor have fechadas: "list_all (janela_fechada al) (janelas st)"
    by (simp add: inv_corridas_def)
  show ?thesis
  proof (cases "em_superacao st")
    case nem: False
    with inv have "inicio_idx st = None"
      by (auto simp: inv_janelas_def)
    with nem st False have "janelas_do_alinhado al m = Inr (janelas st)"
      by (simp add: janelas_do_alinhado_def Let_def)
    with fechadas show ?thesis
      by (auto simp: list_all_iff dest: in_set_butlastD)
  next
    case True
    with inv obtain k where k: "inicio_idx st = Some k" "k < length al"
      unfolding inv_janelas_def by auto
    let ?j = "(fst (al ! k), fst (last al), fst (snd (last al)), snd (snd (last al)))"
    have res: "janelas_do_alinhado al m = Inr (janelas st @ [?j])"
      using False st True k by (simp add: janelas_do_alinhado_def Let_def iloc_nat iloc_ultimo)
    from cor k have run: "\<forall>i. k \<le> i \<and> i < length al \<longrightarrow> supera (al ! i)"
      and ini: "k = 0 \<or> \<not> supera (al ! (k - 1))"
      by (auto simp: inv_corridas_def)
    have "i < length al" if "i \<le> length al - 1" for i
      using that False by (cases al) auto
    with run have "\<forall>i. k \<le> i \<and> i \<le> length al - 1 \<longrightarrow> supera (al ! i)"
      by blast
    then have "corrida al k (length al - 1)"
      unfolding corrida_def using k ini by auto
    then have "janela_aberta al ?j"
      unfolding janela_aberta_def using k False
      by (intro exI [of _ k] exI [of _ "length al - 1"]) (auto simp: last_conv_nth)
    with res fechadas show ?thesis by auto
  qed
qed

text \<open>The unfolding rules that evaluate the detectors on a concrete input.\<close>

lemmas avalia_detectores =
  encontrar_janelas_superacao_def encontrar_periodos_superacao_def janelas_do_alinhado_def
  periodos_do_alinhado_def alinhar_def uniao_indices_def reindexar_def dropna_def
  passo_janelas_def passo_periodos_def estado_janelas_inicial_def estado_periodos_inicial_def
  supera_def iloc_def Let_def


text \<open>
  Claim C1 fails as stated. Series A is 0, 1 and series B is 1, 0 on the dates 1 and 2:
  B exceeds A on date 1 only. The windowed detector reports the interval from date 1 to
  date 2 with the values (0, 1) of date 1: the values are those of the last row inside
  the run, but the end date is the date of the row that ended it, where \<open>B > A\<close>
  is false. (On the same input the point detector ends its interval on date 1.)
\<close>

theorem janelas_data_fim_counterexample:
  "encontrar_janelas_superacao [(1, Fin 0), (2, Fin 1)] [(1, Fin 1), (2, Fin 0)] 1
     = Inr [(1, 2, Fin 0, Fin 1)]
   \<and> alinhar [(1, Fin 0), (2, Fin 1)] [(1, Fin 1), (2, Fin 0)]
     = [(1, Fin 0, Fin 1), (2, Fin 1, Fin 0)]
   \<and> \<not> supera (2, Fin 1, Fin 0)
   \<and> encontrar_periodos_superacao [(1, Fin 0), (2, Fin 1)] [(1, Fin 1), (2, Fin 0)]
     = Inr [(1, 1, 1)]"
  by (simp add: avalia_detectores)

text \<open>
  Claim C9. For two series with strictly increasing dates, both detectors return a list
  (no error) of intervals whose start is not after their end, each of which ends strictly
  before every later one starts, so that they never overlap and their start dates are in
  non-decreasing order. An empty aligned frame gives the empty list; when \<open>B > A\<close>
  holds at the last aligned row, the last interval ends at the last aligned date.
\<close>

theorem detectores_intervalos_disjuntos:
  assumes "sorted_wrt (<) (map fst s1)" and "sorted_wrt (<) (map fst s2)"
  shows "\<exists>js ps.
     encontrar_janelas_superacao s1 s2 m = Inr js \<and>
     encontrar_periodos_superacao s1 s2 = Inr ps \<and>
     disjuntos (map extremos js) \<and> disjuntos (map extremos ps) \<and>
     list_all (\<lambda>iv. fst iv \<le> snd iv) (map extremos js) \<and>
     list_all (\<lambda>iv. fst iv \<le> snd iv) (map extremos ps) \<and>
     sorted (map fst js) \<and> sorted (map fst ps) \<and>
     (alinhar s1 s2 = [] \<longrightarrow> js = [] \<and> ps = []) \<and>
     (alinhar s1 s2 \<noteq> [] \<and> supera (last (alinhar s1 s2)) \<longrightarrow>
        js \<noteq> [] \<and> fst (snd (last js)) = fst (last (alinhar s1 s2)) \<and>
        ps \<noteq> [] \<and> fst (snd (last ps)) = fst (last (alinhar s1 s2)))"
proof -
  let ?al = "alinhar s1 s2"
  have cres: "sorted_wrt (<) (map fst ?al)" by (rule alinhar_datas_crescentes)
  from janelas_do_alinhado_props [OF cres, of m] obtain js where
    js: "janelas_do_alinhado ?al m = Inr js" "disjuntos (map extremos js)"
      "list_all (dentro ?al (length ?al)) (map extremos js)" "?al = [] \<longrightarrow> js = []"
      "?al \<noteq> [] \<and> supera (last ?al) \<longrightarrow> js \<noteq> [] \<and> snd (extremos (last js)) = fst (last ?al)"
    by blast
  from periodos_do_alinhado_props [OF cres] obtain ps where
    ps: "periodos_do_alinhado ?al = Inr ps" "disjuntos (map extremos ps)"
      "list_all (dentro ?al (length ?al)) (map extremos ps)" "?al = [] \<longrightarrow> ps = []"
      "?al \<noteq> [] \<and> supera (last ?al) \<longrightarrow> ps \<noteq> [] \<and> snd (extremos (last ps)) = fst (last ?al)"
    by blast
  have ordem: "list_all (\<lambda>iv. fst iv \<le> snd iv) ivs"
    if "list_all (dentro ?al (length ?al)) ivs" for ivs
    using that dentro_ordem [OF cres] by (auto simp: list_all_iff)
  have inicios: "sorted (map fst xs)"
    if "disjuntos (map extremos xs)" "list_all (dentro ?al (length ?al)) (map extremos xs)"
    for xs :: "(data \<times> data \<times> 'a) list"
    using disjuntos_inicios_ordenados [OF cres that] by (simp add: extremos_def comp_def)
  show ?thesis
    using js ps ordem [OF js(3)] ordem [OF ps(3)] inicios [OF js(2,3)] inicios [OF ps(2,3)]
    by (intro exI [of _ js] exI [of _ ps])
       (simp add: encontrar_janelas_superacao_def encontrar_periodos_superacao_def extremos_def)
qed

theorem detectores_intervalos_disjuntos_witness:
  "sorted_wrt (<) (map fst ([(1, Fin 1), (2, Fin 0), (3, Fin 1), (5, Fin 0), (6, NaN), (7, Fin 0)] :: serie)) \<and>
   sorted_wrt (<) (map fst ([(1, Fin 0), (2, Fin 1), (3, Fin 0), (4, Fin 3), (5, Fin 1), (6, Fin 1), (7, Fin 2)] :: serie)) \<and>
   alinhar [(1, Fin 1), (2, Fin 0), (3, Fin 1), (5, Fin 0), (6, NaN), (7, Fin 0)]
           [(1, Fin 0), (2, Fin 1), (3, Fin 0), (4, Fin 3), (5, Fin 1), (6, Fin 1), (7, Fin 2)]
     = [(1, Fin 1, Fin 0), (2, Fin 0, Fin 1), (3, Fin 1, Fin 0), (5, Fin 0, Fin 1), (7, Fin 0, Fin 2)] \<and>
   encontrar_janelas_superacao [(1, Fin 1), (2, Fin 0), (3, Fin 1), (5, Fin 0), (6, NaN), (7, Fin 0)]
           [(1, Fin 0), (2, Fin 1), (3, Fin 0), (4, Fin 3), (5, Fin 1), (6, Fin 1), (7, Fin 2)] 1
     = Inr [(2, 3, Fin 0, Fin 1), (5, 7, Fin 0, Fin 2)] \<and>
   encontrar_periodos_superacao [(1, Fin 1), (2, Fin 0), (3, Fin 1), (5, Fin 0), (6, NaN), (7, Fin 0)]
           [(1, Fin 0), (2, Fin 1), (3, Fin 0), (4, Fin 3), (5, Fin 1), (6, Fin 1), (7, Fin 2)]
     = Inr [(2, 2, 1), (5, 7, 3)] \<and>
   disjuntos (map extremos [(2, 3, Fin 0, Fin 1), (5, 7, Fin 0, Fin 2)]) \<and>
   disjuntos (map extremos [(2::int, 2::int, 1::int), (5, 7, 3)]) \<and>
   alinhar [(1, Fin 1)] [(2, Fin 1)] = [] \<and>
   encontrar_janelas_superacao [(1, Fin 1)] [(2, Fin 1)] 1 = Inr [] \<and>
   encontrar_periodos_superacao [(1, Fin 1)] [(2, Fin 1)] = Inr []"
  using detectores_intervalos_disjuntos
    [of "[(1, Fin 1), (2, Fin 0), (3, Fin 1), (5, Fin 0), (6, NaN), (7, Fin 0)]"
        "[(1, Fin 0), (2, Fin 1), (3, Fin 0), (4, Fin 3), (5, Fin 1), (6, Fin 1), (7, Fin 2)]" 1]
    detectores_intervalos_disjuntos [of "[(1, Fin 1)]" "[(2, Fin 1)]" 1]
  by (simp add: avalia_detectores disjuntos_def extremos_def)

text \<open>
  Claim C10. The windowed detector computes \<open>dias_janela\<close> from its window-size
  argument and never uses it: two calls that differ only in that argument return the same
  result.
\<close>

theorem janela_meses_nao_influi:
  "encontrar_janelas_superacao retornos1 retornos2 janela_meses
     = encontrar_janelas_superacao retornos1 retornos2 janela_meses'"
  by (simp add: encontrar_janelas_superacao_def janelas_do_alinhado_def Let_def)

theorem janela_meses_nao_influi_witness:
  "encontrar_janelas_superacao [(1, Fin 0), (2, Fin 1)] [(1, Fin 1), (2, Fin 2)] 1
     = encontrar_janelas_superacao [(1, Fin 0), (2, Fin 1)] [(1, Fin 1), (2, Fin 2)] 24
   \<and> encontrar_janelas_superacao [(1, Fin 0), (2, Fin 1)] [(1, Fin 1), (2, Fin 2)] 24
     = Inr [(1, 2, Fin 1, Fin 2)]"
  using janela_meses_nao_influi [of "[(1, Fin 0), (2, Fin 1)]" "[(1, Fin 1), (2, Fin 2)]" 1 24]
  by (simp add: avalia_detectores)

text \<open>
  Claim C1, amended. For two series with strictly increasing dates, every interval of the
  windowed detector comes from a maximal run of aligned rows at which \<open>B > A\<close>
  holds: its start date is the date of the first row of the run, and its two values are
  those of the last row inside the run, not of the row that ended it. Its end date is the
  date of the row that ended the run, at which \<open>B > A\<close> is false; only the last
  interval may come from a run that reaches the last row, and its end date is then the
  date of that row.
\<close>

theorem janelas_valores_da_corrida:
  assumes "sorted_wrt (<) (map fst s1)" and "sorted_wrt (<) (map fst s2)"
  shows "\<exists>js. encontrar_janelas_superacao s1 s2 m = Inr js \<and>
     list_all (janela_fechada (alinhar s1 s2)) (butlast js) \<and>
     (js \<noteq> [] \<longrightarrow>
        janela_fechada (alinhar s1 s2) (last js) \<or> janela_aberta (alinhar s1 s2) (last js))"
  using janelas_do_alinhado_corridas [OF alinhar_datas_crescentes, of s1 s2 m]
  by (simp add: encontrar_janelas_superacao_def)

theorem janelas_valores_da_corrida_witness:
  "sorted_wrt (<) (map fst ([(1, Fin 1), (2, Fin 0), (3, Fin 1), (4, Fin 9), (5, Fin 0)] :: serie)) \<and>
   sorted_wrt (<) (map fst ([(1, Fin 0), (2, Fin 1), (3, Fin 0), (5, Fin 1)] :: serie)) \<and>
   alinhar [(1, Fin 1), (2, Fin 0), (3, Fin 1), (4, Fin 9), (5, Fin 0)]
           [(1, Fin 0), (2, Fin 1), (3, Fin 0), (5, Fin 1)]
     = [(1, Fin 1, Fin 0), (2, Fin 0, Fin 1), (3, Fin 1, Fin 0), (5, Fin 0, Fin 1)] \<and>
   encontrar_janelas_superacao [(1, Fin 1), (2, Fin 0), (3, Fin 1), (4, Fin 9), (5, Fin 0)]
           [(1, Fin 0), (2, Fin 1), (3, Fin 0), (5, Fin 1)] 6
     = Inr [(2, 3, Fin 0, Fin 1), (5, 5, Fin 0, Fin 1)]"
  using janelas_valores_da_corrida
    [of "[(1, Fin 1), (2, Fin 0), (3, Fin 1), (4, Fin 9), (5, Fin 0)]"
        "[(1, Fin 0), (2, Fin 1), (3, Fin 0), (5, Fin 1)]" 6]
  by (simp add: avalia_detectores)

section \<open>Properties of the returns\<close>

lemma fsub_Fin [simp]: "fsub (Fin x) (Fin y) = Fin (x - y)"
  by (simp add: fsub_def)

lemma variacao_finita:
  "c0 \<noteq> 0 \<Longrightarrow> fmul (fdiv (fsub (Fin x) (Fin c0)) (Fin c0)) (Fin 100) = Fin ((x - c0) / c0 * 100)"
  by simp

text \<open>
  Claim C7 fails as stated when the first close is zero: the first value is then
  \<open>0 / 0\<close>, which pandas computes as NaN, not 0 (and a later positive close gives
  an infinity).
\<close>

theorem variacao_zero_counterexample:
  "calcular_variacao_percentual \<lparr>indice = [1, 2], colunas = [(''Close'', [Fin 0, Fin 5])]\<rparr>
     = Inr [(1, NaN), (2, PInf)]"
  by (simp add: calcular_variacao_percentual_def coluna_def entao_def iloc_def fsub_def
      inf_com_sinal_def)

text \<open>
  Claim C7, amended. For a frame with a non-empty close column, the result has the dates
  of the frame and its value at every position \<open>t\<close> is
  \<open>(close[t] - close[0]) / close[0] * 100\<close> in the arithmetic of the floats; when the
  first close is finite and not zero, the value at position 0 is exactly 0 and every
  finite close gives the real number that the formula denotes.
\<close>

theorem variacao_percentual_formula:
  assumes close: "coluna dados ''Close'' = Some close"
    and compr: "length close = length (indice dados)"
    and naovazia: "close \<noteq> []"
  shows "\<exists>v. calcular_variacao_percentual dados = Inr v \<and>
     map fst v = indice dados \<and>
     (\<forall>t < length close.
        snd (v ! t) = fmul (fdiv (fsub (close ! t) (close ! 0)) (close ! 0)) (Fin 100)) \<and>
     (\<forall>c0. close ! 0 = Fin c0 \<and> c0 \<noteq> 0 \<longrightarrow>
        snd (v ! 0) = Fin 0 \<and>
        (\<forall>t x. t < length close \<and> close ! t = Fin x \<longrightarrow>
           snd (v ! t) = Fin ((x - c0) / c0 * 100)))"
proof -
  let ?f = "\<lambda>c. fmul (fdiv (fsub c (close ! 0)) (close ! 0)) (Fin 100)"
  let ?v = "zip (indice dados) (map ?f close)"
  from naovazia have p0: "iloc close 0 = Inr (close ! 0)"
    by (simp add: iloc_def)
  with close have res: "calcular_variacao_percentual dados = Inr ?v"
    by (simp add: calcular_variacao_percentual_def entao_def)
  have datas: "map fst ?v = indice dados"
    using compr by (simp add: map_fst_zip)
  have val: "snd (?v ! t) = ?f (close ! t)" if "t < length close" for t
    using that compr by simp
  have fin: "snd (?v ! t) = Fin ((x - c0) / c0 * 100)"
    if "close ! 0 = Fin c0" "c0 \<noteq> 0" "t < length close" "close ! t = Fin x" for c0 t x
    using val [OF that(3)] that by simp
  have zero: "snd (?v ! 0) = Fin 0" if "close ! 0 = Fin c0" "c0 \<noteq> 0" for c0
    using fin [OF that _ that(1)] naovazia by simp
  show ?thesis
    using res datas val fin zero by (intro exI [of _ ?v]) blast
qed

theorem variacao_percentual_formula_witness:
  "coluna \<lparr>indice = [1, 2, 3, 4], colunas = [(''Close'', [Fin 100, Fin 110, Fin 90, Fin 80])]\<rparr> ''Close''
     = Some [Fin 100, Fin 110, Fin 90, Fin 80] \<and>
   calcular_variacao_percentual
     \<lparr>indice = [1, 2, 3, 4], colunas = [(''Close'', [Fin 100, Fin 110, Fin 90, Fin 80])]\<rparr>
     = Inr [(1, Fin 0), (2, Fin 10), (3, Fin (- 10)), (4, Fin (- 20))]"
  using variacao_percentual_formula
    [of "\<lparr>indice = [1, 2, 3, 4], colunas = [(''Close'', [Fin 100, Fin 110, Fin 90, Fin 80])]\<rparr>"
        "[Fin 100, Fin 110, Fin 90, Fin 80]"]
  by (simp add: calcular_variacao_percentual_def coluna_def entao_def iloc_def)

lemma laco_retornos_ok:
  assumes compr: "length datas = length close"
    and cabe: "n + w \<le> length close"
    and naozero: "\<forall>i < n. close ! i \<noteq> Fin 0"
  shows "k \<le> n \<Longrightarrow>
    laco_retornos datas close (int w) (map int [k..<n]) acc
      = Inr (acc @ map (\<lambda>i. (datas ! (i + w), retorno_da_janela close w i)) [k..<n])"
proof (induction "n - k" arbitrary: k acc)
  case 0
  then show ?case by simp
next
  case (Suc d)
  then have k: "k < n" by simp
  then have lista: "[k..<n] = k # [Suc k..<n]" by (rule upt_conv_Cons)
  from k cabe have kw: "k + w < length close" by simp
  have p1: "iloc close (int k) = Inr (close ! k)"
    using kw by (simp add: iloc_def)
  have p2: "iloc close (int k + int w) = Inr (close ! (k + w))"
    using kw by (simp add: iloc_def nat_add_distrib)
  have p3: "iloc datas (int k + int w) = Inr (datas ! (k + w))"
    using kw compr by (simp add: iloc_def nat_add_distrib)
  have p4: "py_fdiv (fsub (close ! (k + w)) (close ! k)) (close ! k)
      = Inr (fdiv (fsub (close ! (k + w)) (close ! k)) (close ! k))"
    using naozero k by (simp add: py_fdiv_def)
  from Suc.hyps(2) k have "d = n - Suc k" by simp
  from Suc.hyps(1) [OF this] k
  have "laco_retornos datas close (int w) (map int [Suc k..<n])
          (acc @ [(datas ! (k + w), retorno_da_janela close w k)])
        = Inr ((acc @ [(datas ! (k + w), retorno_da_janela close w k)])
               @ map (\<lambda>i. (datas ! (i + w), retorno_da_janela close w i)) [Suc k..<n])"
    by simp
  then show ?case
    by (simp add: lista p1 p2 p3 p4 entao_def retorno_da_janela_def)
qed

lemma retorno_finito:
  "a \<noteq> 0 \<Longrightarrow> close ! i = Fin a \<Longrightarrow> close ! (i + w) = Fin b \<Longrightarrow>
     retorno_da_janela close w i = Fin ((b - a) / a * 100)"
  by (simp add: retorno_da_janela_def fsub_def)

text \<open>
  Claim C6, amended. For a frame with a close column, a window of \<open>m \<ge> 0\<close> months
  and no zero close among the first \<open>len - m * 21\<close> closes, the result has length
  \<open>max(0, len - m * 21)\<close>, it is empty (and no error) when the series is not longer
  than the width, and its entry \<open>i\<close> is keyed by the date at \<open>i + width\<close> and
  is \<open>(close[i + width] - close[i]) / close[i] * 100\<close>.
\<close>

theorem retorno_janela_formula:
  assumes close: "coluna dados ''Close'' = Some close"
    and compr: "length (indice dados) = length close"
    and meses: "0 \<le> m"
    and naozero: "Fin 0 \<notin> set (take (length close - nat (m * 21)) close)"
  shows "\<exists>r. calcular_retorno_janela dados m = Inr r \<and>
     int (length r) = max 0 (int (length close) - m * 21) \<and>
     (int (length close) \<le> m * 21 \<longrightarrow> r = []) \<and>
     (\<forall>i < length r.
        r ! i = (indice dados ! (i + nat (m * 21)), retorno_da_janela close (nat (m * 21)) i)) \<and>
     (\<forall>i a b. i < length r \<and> close ! i = Fin a \<and> close ! (i + nat (m * 21)) = Fin b \<longrightarrow>
        snd (r ! i) = Fin ((b - a) / a * 100))"
proof -
  let ?w = "nat (m * 21)"
  let ?n = "length close - ?w"
  let ?r = "map (\<lambda>i. (indice dados ! (i + ?w), retorno_da_janela close ?w i)) [0..<?n]"
  from meses have w: "int ?w = m * 21" by simp
  have n: "nat (int (length close) - m * 21) = ?n"
    using meses by (simp add: nat_diff_distrib')
  have cabe: "?n + ?w \<le> length close \<or> ?n = 0" by auto
  have nz: "\<forall>i < ?n. close ! i \<noteq> Fin 0"
    using naozero by (auto simp: in_set_conv_nth)
  have "laco_retornos (indice dados) close (int ?w) (map int [0..<?n]) [] = Inr ([] @ ?r)"
  proof (cases "?n = 0")
    case True
    then show ?thesis by simp
  next
    case False
    with cabe have "?n + ?w \<le> length close" by simp
    from laco_retornos_ok [OF compr this nz, of 0 "[]"] show ?thesis by simp
  qed
  then have "laco_retornos (indice dados) close (m * 21)
      (range_py (int (length close) - m * 21)) [] = Inr ?r"
    unfolding range_py_def n w by simp
  then have res: "calcular_retorno_janela dados m = Inr ?r"
    using close by (simp add: calcular_retorno_janela_def Let_def)
  have len: "int (length ?r) = max 0 (int (length close) - m * 21)"
    using meses by (auto simp: max_def of_nat_diff)
  have vazio: "int (length close) \<le> m * 21 \<longrightarrow> ?r = []"
    using meses by auto
  have cada: "\<forall>i < length ?r. ?r ! i = (indice dados ! (i + ?w), retorno_da_janela close ?w i)"
    by simp
  have finito: "snd (?r ! i) = Fin ((b - a) / a * 100)"
    if "i < length ?r" "close ! i = Fin a" "close ! (i + ?w) = Fin b" for i a b
  proof -
    from that(1,2) nz have "a \<noteq> 0" by auto
    from retorno_finito [OF this that(2,3)] that(1) show ?thesis by simp
  qed
  from res len vazio cada finito show ?thesis by (intro exI [of _ ?r]) blast
qed

theorem retorno_janela_formula_witness:
  "coluna \<lparr>indice = [1, 2, 3, 4, 5, 6, 7, 8, 9, 10, 11, 12, 13, 14, 15, 16, 17, 18, 19, 20, 21, 22, 23],
            colunas = [(''Close'', [Fin 100, Fin 50, Fin 1, Fin 1, Fin 1, Fin 1, Fin 1, Fin 1,
               Fin 1, Fin 1, Fin 1, Fin 1, Fin 1, Fin 1, Fin 1, Fin 1, Fin 1, Fin 1, Fin 1,
               Fin 1, Fin 1, Fin 110, Fin 75])]\<rparr> ''Close''
     = Some [Fin 100, Fin 50, Fin 1, Fin 1, Fin 1, Fin 1, Fin 1, Fin 1,
               Fin 1, Fin 1, Fin 1, Fin 1, Fin 1, Fin 1, Fin 1, Fin 1, Fin 1, Fin 1, Fin 1,
               Fin 1, Fin 1, Fin 110, Fin 75] \<and>
   Fin 0 \<notin> set (take (23 - nat (1 * 21)) [Fin 100, Fin 50, Fin 1, Fin 1, Fin 1, Fin 1, Fin 1, Fin 1,
               Fin 1, Fin 1, Fin 1, Fin 1, Fin 1, Fin 1, Fin 1, Fin 1, Fin 1, Fin 1, Fin 1,
               Fin 1, Fin 1, Fin 110, Fin 75]) \<and>
   calcular_retorno_janela
     \<lparr>indice = [1, 2, 3, 4, 5, 6, 7, 8, 9, 10, 11, 12, 13, 14, 15, 16, 17, 18, 19, 20, 21, 22, 23],
      colunas = [(''Close'', [Fin 100, Fin 50, Fin 1, Fin 1, Fin 1, Fin 1, Fin 1, Fin 1,
               Fin 1, Fin 1, Fin 1, Fin 1, Fin 1, Fin 1, Fin 1, Fin 1, Fin 1, Fin 1, Fin 1,
               Fin 1, Fin 1, Fin 110, Fin 75])]\<rparr> 1
     = Inr [(22, Fin 10), (23, Fin 50)] \<and>
   calcular_retorno_janela \<lparr>indice = [1, 2], colunas = [(''Close'', [Fin 0, Fin 2])]\<rparr> 1 = Inr []"
  using retorno_janela_formula
    [of "\<lparr>indice = [1, 2], colunas = [(''Close'', [Fin 0, Fin 2])]\<rparr>" "[Fin 0, Fin 2]" 1]
    retorno_janela_formula
    [of "\<lparr>indice = [1, 2, 3, 4, 5, 6, 7, 8, 9, 10, 11, 12, 13, 14, 15, 16, 17, 18, 19, 20, 21, 22, 23],
      colunas = [(''Close'', [Fin 100, Fin 50, Fin 1, Fin 1, Fin 1, Fin 1, Fin 1, Fin 1,
               Fin 1, Fin 1, Fin 1, Fin 1, Fin 1, Fin 1, Fin 1, Fin 1, Fin 1, Fin 1, Fin 1,
               Fin 1, Fin 1, Fin 110, Fin 75])]\<rparr>"
        "[Fin 100, Fin 50, Fin 1, Fin 1, Fin 1, Fin 1, Fin 1, Fin 1,
               Fin 1, Fin 1, Fin 1, Fin 1, Fin 1, Fin 1, Fin 1, Fin 1, Fin 1, Fin 1, Fin 1,
               Fin 1, Fin 1, Fin 110, Fin 75]" 1]
  by (simp add: calcular_retorno_janela_def coluna_def range_py_def entao_def iloc_def
      py_fdiv_def fsub_def Let_def upt_rec)

text \<open>
  Claim C6 fails as stated on a series with a zero close: with 22 rows and a window of one
  month the claimed result has one entry, and the code raises
  \<open>ZeroDivisionError\<close> on the first close.
\<close>

theorem retorno_janela_zero_counterexample:
  "calcular_retorno_janela
     \<lparr>indice = [1, 2, 3, 4, 5, 6, 7, 8, 9, 10, 11, 12, 13, 14, 15, 16, 17, 18, 19, 20, 21, 22],
      colunas = [(''Close'', [Fin 0, Fin 1, Fin 1, Fin 1, Fin 1, Fin 1, Fin 1, Fin 1,
               Fin 1, Fin 1, Fin 1, Fin 1, Fin 1, Fin 1, Fin 1, Fin 1, Fin 1, Fin 1, Fin 1,
               Fin 1, Fin 1, Fin 1])]\<rparr> 1
     = Inl ZeroDivisionError"
  by (simp add: calcular_retorno_janela_def coluna_def range_py_def entao_def iloc_def
      py_fdiv_def fsub_def Let_def upt_rec)

section \<open>Properties of the savings computation\<close>

lemma cumprod_de_length [simp]: "length (cumprod_de p xs) = length xs"
  by (induction xs arbitrary: p) auto

lemma cumprod_de_nth:
  "i < length xs \<Longrightarrow> cumprod_de p xs ! i = p * (\<Prod>j\<le>i. xs ! j)"
proof (induction xs arbitrary: p i)
  case Nil
  then show ?case by simp
next
  case (Cons x xs)
  show ?case
  proof (cases i)
    case 0
    then show ?thesis by simp
  next
    case (Suc k)
    with Cons.prems have k: "k < length xs" by simp
    have "(\<Prod>j\<le>Suc k. (x # xs) ! j) = x * (\<Prod>j\<le>k. xs ! j)"
      unfolding prod.atMost_Suc_shift by simp
    with Cons.IH [OF k, of "p * x"] Suc show ?thesis by simp
  qed
qed

text \<open>
  Claim C8. At every row of the savings computation the daily rate is the monthly total
  divided by 30, the monthly total being 0.5 when the policy rate exceeds 8.5 and
  \<open>0.7 * policy_rate / 12\<close> otherwise, plus the secondary rate divided by 12; the
  value at the row is 100000 compounded by the daily rates (in percent) of all the rows up
  to it.
\<close>

theorem poupanca_rendimento:
  assumes "i < length df"
  shows "valor_investimento df ! i
           = 100000 * (\<Prod>j\<le>i. 1 + taxa_diaria (df ! j) / 100)
     \<and> taxa_diaria (df ! i)
           = ((if fst (df ! i) > 8.5 then 0.5 else 0.7 * fst (df ! i) / 12) + snd (df ! i) / 12) / 30
     \<and> length (valor_investimento df) = length df"
proof -
  let ?fs = "map (\<lambda>l. 1 + taxa_diaria l / 100) df"
  from assms have "cumprod_de 1 ?fs ! i = 1 * (\<Prod>j\<le>i. ?fs ! j)"
    by (intro cumprod_de_nth) simp
  moreover have "(\<Prod>j\<le>i. ?fs ! j) = (\<Prod>j\<le>i. 1 + taxa_diaria (df ! j) / 100)"
    using assms by (intro prod.cong) auto
  ultimately have "valor_investimento df ! i = 100000 * (\<Prod>j\<le>i. 1 + taxa_diaria (df ! j) / 100)"
    using assms by (simp add: valor_investimento_def fator_acumulado_def cumprod_def valor_inicial_def)
  then show ?thesis
    by (simp add: taxa_diaria_def rendimento_total_def rendimento_mensal_def
        valor_investimento_def fator_acumulado_def cumprod_def)
qed

theorem poupanca_rendimento_witness:
  "(1::nat) < length [(10::real, 0::real), (6, 1.2)] \<and>
   valor_investimento [(10, 0), (6, 1.2)] = [300050 / 3, 120038003 / 1200] \<and>
   taxa_diaria (10, 0) = 1 / 60 \<and> taxa_diaria (6, 1.2) = 3 / 200"
  using poupanca_rendimento [of 1 "[(10, 0), (6, 1.2)]"]
  by (simp add: valor_investimento_def fator_acumulado_def cumprod_def valor_inicial_def
      taxa_diaria_def rendimento_total_def rendimento_mensal_def)

section \<open>Properties of the currency conversion\<close>

lemma indice_escalar_fixo [simp]: "indice (escalar_fixo q t) = indice q"
  by (simp add: escalar_fixo_def)

lemma indice_escalar_por_data [simp]: "indice (escalar_por_data q ts) = indice q"
  by (simp add: escalar_por_data_def)

lemma nomes_escalar_fixo [simp]: "map fst (colunas (escalar_fixo q t)) = map fst (colunas q)"
  by (simp add: escalar_fixo_def comp_def)

lemma nomes_escalar_por_data [simp]:
  "map fst (colunas (escalar_por_data q ts)) = map fst (colunas q)"
  by (simp add: escalar_por_data_def comp_def)




lemma ffill_de_length [simp]: "length (ffill_de u xs) = length xs"
  by (induction xs arbitrary: u) auto

lemma bfill_ffill_length [simp]: "length (bfill (ffill xs)) = length xs"
  by (simp add: bfill_def ffill_def)




section \<open>Properties of the market data fetch\<close>











section \<open>Properties of the paginated rate series\<close>

text \<open>The loop is unfolded one slice at a time, by its two conditional equations.\<close>

declare laco_fatias.simps [simp del]

lemma laco_fatias_continua:
  "data_atual < data_fim \<Longrightarrow>
   laco_fatias fonte data_atual data_fim todos
     = laco_fatias fonte (min (data_atual + 365 * janela_anos) data_fim + 1) data_fim
         (case fonte data_atual (min (data_atual + 365 * janela_anos) data_fim) of
            Registros dados \<Rightarrow> todos @ dados | _ \<Rightarrow> todos)"
  by (subst laco_fatias.simps) (simp add: Let_def)

lemma laco_fatias_termina:
  "\<not> data_atual < data_fim \<Longrightarrow> laco_fatias fonte data_atual data_fim todos = todos"
  by (subst laco_fatias.simps) simp

text \<open>The unfolding rules that evaluate the paginated fetch on a concrete input.\<close>

lemmas avalia_paginacao =
  buscar_serie_bcb_def busca_sem_fatias_def consolidar_def fonte_limitada_def no_intervalo_def
  janela_anos_def laco_fatias_continua laco_fatias_termina

text \<open>
  Claim C3, evaluated on the code. The source holds one observation on day 0 and one on
  day 1826 and the range asked is 0 to 1826: the first slice is 0 to 1825, the next one
  would start on day 1826, which is not before the end of the range, so the loop stops
  and the observation of the last day is never asked for. One request for the whole range
  gives both observations. In the same way a range of a single day is never asked for.
\<close>

theorem paginacao_perde_ultimo_dia:
  "buscar_serie_bcb (fonte_limitada 3650 [(0, Fin 1), (1826, Fin 2)]) 0 1826 = [(0, Fin 1)]
   \<and> busca_sem_fatias [(0, Fin 1), (1826, Fin 2)] 0 1826 = [(0, Fin 1), (1826, Fin 2)]
   \<and> buscar_serie_bcb (fonte_limitada 3650 [(7, Fin 1)]) 7 7 = []
   \<and> busca_sem_fatias [(7, Fin 1)] 7 7 = [(7, Fin 1)]"
  by (simp add: avalia_paginacao)

text \<open>
  On a range of twelve years (4380 days) that is no multiple of 1826 days, the three
  slices give what one request gives.
\<close>

lemma paginacao_doze_anos:
  "buscar_serie_bcb (fonte_limitada 3650 [(0, Fin 1), (1825, Fin 2), (1826, Fin 3), (4380, Fin 4)]) 0 4380
     = busca_sem_fatias [(0, Fin 1), (1825, Fin 2), (1826, Fin 3), (4380, Fin 4)] 0 4380"
  by (simp add: avalia_paginacao)

text \<open>
  Equivalent lists are consolidated to the same series; the slices of a range, put end to
  end, are equivalent to the range.
\<close>

lemma equivalentes_refl [simp]: "equivalentes xs xs"
  by (simp add: equivalentes_def)

lemma equivalentes_trans: "equivalentes xs ys \<Longrightarrow> equivalentes ys zs \<Longrightarrow> equivalentes xs zs"
  by (simp add: equivalentes_def)

lemma equivalentes_append: "equivalentes xs ys \<Longrightarrow> equivalentes (acc @ xs) (acc @ ys)"
  by (simp add: equivalentes_def)

lemma equivalentes_filter:
  assumes "equivalentes xs ys"
  shows "equivalentes (filter P xs) (filter P ys)"
proof -
  have com: "filter (\<lambda>l. fst l = k) (filter P zs) = filter P (filter (\<lambda>l. fst l = k) zs)"
    for k and zs :: "(data \<times> flt) list"
    by (simp add: conj_commute)
  from assms have "mset (filter P xs) = mset (filter P ys)"
    by (simp add: equivalentes_def)
  moreover from assms have "filter (\<lambda>l. fst l = k) (filter P xs) = filter (\<lambda>l. fst l = k) (filter P ys)"
    for k
    unfolding com equivalentes_def by simp
  ultimately show ?thesis
    unfolding equivalentes_def by blast
qed

lemma equivalentes_sort: 
  assumes "equivalentes xs ys"
  shows "sort_key fst xs = sort_key fst ys"
proof (rule properties_for_sort_key)
  show "mset (sort_key fst ys) = mset xs"
    using assms by (simp add: equivalentes_def)
  show "sorted (map fst (sort_key fst ys))" by simp
  fix k
  have "filter (\<lambda>x. fst k = fst x) zs = filter (\<lambda>l. fst l = fst k) zs" for zs :: "(data \<times> flt) list"
    by (rule filter_cong) auto
  then show "filter (\<lambda>x. fst k = fst x) (sort_key fst ys) = filter (\<lambda>x. fst k = fst x) xs"
    using assms by (simp add: equivalentes_def sort_key_stable)
qed

lemma consolidar_sem_teste:
  "consolidar xs = sem_duplicadas [] (sort_key fst (filter (\<lambda>l. snd l \<noteq> NaN) xs))"
  by (simp add: consolidar_def)

lemma equivalentes_consolidar: "equivalentes xs ys \<Longrightarrow> consolidar xs = consolidar ys"
  unfolding consolidar_sem_teste
  using equivalentes_sort [OF equivalentes_filter] by simp

lemma no_intervalo_emenda:
  assumes "a \<le> c + 1" "c \<le> b"
  shows "equivalentes (no_intervalo a c base @ no_intervalo (c + 1) b base) (no_intervalo a b base)"
  unfolding equivalentes_def no_intervalo_def
proof (intro conjI allI)
  show "mset (filter (\<lambda>l. a \<le> fst l \<and> fst l \<le> c) base @ filter (\<lambda>l. c + 1 \<le> fst l \<and> fst l \<le> b) base)
      = mset (filter (\<lambda>l. a \<le> fst l \<and> fst l \<le> b) base)"
    using assms by (induction base) auto
next
  fix k
  show "filter (\<lambda>l. fst l = k)
          (filter (\<lambda>l. a \<le> fst l \<and> fst l \<le> c) base @ filter (\<lambda>l. c + 1 \<le> fst l \<and> fst l \<le> b) base)
      = filter (\<lambda>l. fst l = k) (filter (\<lambda>l. a \<le> fst l \<and> fst l \<le> b) base)"
  proof (cases "k \<le> c")
    case True
    have "filter (\<lambda>l. fst l = k) (filter (\<lambda>l. c + 1 \<le> fst l \<and> fst l \<le> b) base) = []"
      using True by (induction base) auto
    moreover have "filter (\<lambda>l. fst l = k) (filter (\<lambda>l. a \<le> fst l \<and> fst l \<le> c) base)
        = filter (\<lambda>l. fst l = k) (filter (\<lambda>l. a \<le> fst l \<and> fst l \<le> b) base)"
      using True assms by (induction base) auto
    ultimately show ?thesis by simp
  next
    case False
    have "filter (\<lambda>l. fst l = k) (filter (\<lambda>l. a \<le> fst l \<and> fst l \<le> c) base) = []"
      using False by (induction base) auto
    moreover have "filter (\<lambda>l. fst l = k) (filter (\<lambda>l. c + 1 \<le> fst l \<and> fst l \<le> b) base)
        = filter (\<lambda>l. fst l = k) (filter (\<lambda>l. a \<le> fst l \<and> fst l \<le> b) base)"
      using False assms by (induction base) auto
    ultimately show ?thesis by simp
  qed
qed

lemma laco_fatias_cobertura:
  assumes lim: "1825 \<le> limite_dias"
  shows "data_atual < data_fim \<Longrightarrow>
    equivalentes (laco_fatias (fonte_limitada limite_dias base) data_atual data_fim todos)
                 (todos @ no_intervalo data_atual (cobertura data_atual data_fim) base)"
proof (induction "fonte_limitada limite_dias base" data_atual data_fim todos
    rule: laco_fatias.induct)
  case (1 a b todos)
  let ?f = "fonte_limitada limite_dias base"
  show ?case
  proof (cases "b \<le> a + 1825")
    case True
    with "1.prems" lim have "laco_fatias ?f a b todos = todos @ no_intervalo a b base"
      by (simp add: laco_fatias.simps [of ?f a b] laco_fatias.simps [of ?f "b + 1" b]
          janela_anos_def fonte_limitada_def Let_def min_def)
    moreover from True "1.prems" have "cobertura a b = b"
      by (simp add: cobertura_def)
    ultimately show ?thesis by simp
  next
    case False
    then have fim: "min (a + 365 * janela_anos) b = a + 1825"
      by (simp add: janela_anos_def)
    have resp: "?f a (a + 1825) = Registros (no_intervalo a (a + 1825) base)"
      using lim by (simp add: fonte_limitada_def)
    let ?todos = "todos @ no_intervalo a (a + 1825) base"
    have passo: "laco_fatias ?f a b todos = laco_fatias ?f (a + 1826) b ?todos"
      using "1.prems" fim resp by (subst laco_fatias.simps) (simp add: Let_def add.commute)
    have mesma: "cobertura (a + 1826) b = cobertura a b"
    proof -
      have "(b - (a + 1826)) mod 1826 = (b - a) mod 1826"
        by (metis diff_diff_eq minus_mod_self2)
      then show ?thesis by (simp add: cobertura_def)
    qed
    show ?thesis
    proof (cases "a + 1826 < b")
      case True
      have "equivalentes (laco_fatias ?f (a + 1826) b ?todos)
              (?todos @ no_intervalo (a + 1826) (cobertura (a + 1826) b) base)"
        using "1.hyps" [OF "1.prems" refl refl] True fim resp
        by (simp add: add.commute)
      moreover have "a + 1825 \<le> cobertura a b"
        using True by (simp add: cobertura_def)
      then have "equivalentes
          (no_intervalo a (a + 1825) base @ no_intervalo (a + 1825 + 1) (cobertura a b) base)
          (no_intervalo a (cobertura a b) base)"
        by (intro no_intervalo_emenda) auto
      then have "equivalentes (?todos @ no_intervalo (a + 1826) (cobertura a b) base)
          (todos @ no_intervalo a (cobertura a b) base)"
        using equivalentes_append [of _ _ todos] by (simp add: add.commute)
      ultimately show ?thesis
        unfolding passo mesma by (rule equivalentes_trans)
    next
      case nao: False
      with False have b: "b = a + 1826" by simp
      then have "cobertura a b = a + 1825" by (simp add: cobertura_def)
      moreover from b have "laco_fatias ?f (a + 1826) b ?todos = ?todos"
        by (subst laco_fatias.simps) simp
      ultimately show ?thesis unfolding passo by simp
    qed
  qed
qed

text \<open>
  Against a source that answers every range of up to five years with its observations of
  that range, the paginated fetch of a range that is not empty gives what one request
  from the start of the range to the last day reached by the slices gives.
\<close>

lemma paginacao_cobre_ate:
  assumes "1825 \<le> limite_dias" "data_inicio < data_fim"
  shows "buscar_serie_bcb (fonte_limitada limite_dias base) data_inicio data_fim
           = busca_sem_fatias base data_inicio (cobertura data_inicio data_fim)"
  unfolding buscar_serie_bcb_def busca_sem_fatias_def
  using equivalentes_consolidar [OF laco_fatias_cobertura [OF assms, of base "[]"]] by simp

text \<open>
  So the paginated fetch equals the unsegmented one whenever the length of the range is
  positive and no multiple of 1826 days.
\<close>

lemma paginacao_igual_sem_fatias:
  assumes "1825 \<le> limite_dias" "data_inicio < data_fim"
    and "(data_fim - data_inicio) mod 1826 \<noteq> 0"
  shows "buscar_serie_bcb (fonte_limitada limite_dias base) data_inicio data_fim
           = busca_sem_fatias base data_inicio data_fim"
  using paginacao_cobre_ate [OF assms(1,2), of base] assms(3) by (simp add: cobertura_def)

end
